theory Spec2Isabelle
  imports Complex_Main "HOL-Library.Word" "HOL-Library.Signed_Division" "HOL-Library.Log_Nat"
begin

unbundle bit_operations_syntax

section \<open>The map widget of \<^verbatim>\<open>widget/map.go\<close>\<close>

text \<open>
  The development embeds the map widget: the \<^verbatim>\<open>Map\<close> struct, the six button
  handlers that \<^verbatim>\<open>CreateRenderer\<close> installs (zoom in, zoom out and the four pan
  directions) and the raster generator \<^verbatim>\<open>draw\<close>, together with the parts of Go's
  \<^verbatim>\<open>image\<close>, \<^verbatim>\<open>image/color\<close> and \<^verbatim>\<open>image/draw\<close> packages that
  \<^verbatim>\<open>draw\<close> calls.
\<close>

subsection \<open>Go integers\<close>

text \<open>
  Go's \<^verbatim>\<open>int\<close> has 64 bits on the 64-bit targets (amd64, arm64); its arithmetic wraps
  around silently. The fields of the struct and the arithmetic of the button handlers are
  therefore 64-bit words read as two's complement (\<open>sint\<close>), compared with the signed
  orders \<open>\<le>s\<close> and \<open><s\<close>. Go's integer division truncates towards zero, which is
  \<open>sdiv\<close> on the signed values.

  The handlers can drive a coordinate to any 64-bit value, so what they do at the ends of
  the range matters. \<^verbatim>\<open>draw\<close> computes with pixel sizes and tile indices; its local
  arithmetic is done on the signed values in \<open>int\<close> and is the program's as long as no
  intermediate result leaves the 64-bit range. Only the shift \<^verbatim>\<open>1 << m.zoom\<close>, which
  overflows from zoom level 63 on, is kept as a word operation.
\<close>

type_synonym go_int = "64 word"

definition go_quo :: "go_int \<Rightarrow> go_int \<Rightarrow> go_int" where
  "go_quo a b = word_of_int (sint a sdiv sint b)"

subsection \<open>Go floating point\<close>

text \<open>
  \<^verbatim>\<open>draw\<close> makes two computations in floating point. A finite floating-point value is
  a rational number; an operation yields the exact result rounded to the nearest value
  with 24 (\<^verbatim>\<open>float32\<close>) or 53 (\<^verbatim>\<open>float64\<close>) significant bits, ties going to the
  even significand. Exponent overflow and subnormal numbers do not arise for the values of
  \<^verbatim>\<open>draw\<close> and are left out. A conversion to \<^verbatim>\<open>int\<close> truncates towards zero.
\<close>

definition pow2 :: "int \<Rightarrow> rat" where
  "pow2 e = (if 0 \<le> e then 2 ^ nat e else 1 / 2 ^ nat (- e))"

text \<open>The exponent of a non-zero rational: the integer \<open>e\<close> with \<open>2^e \<le> \<bar>q\<bar> < 2^(e + 1)\<close>.\<close>

definition ilog2 :: "rat \<Rightarrow> int" where
  "ilog2 q =
     (let (a, b) = quotient_of \<bar>q\<bar>;
          e = int (floorlog 2 (nat a)) - int (floorlog 2 (nat b))
      in if \<bar>q\<bar> < pow2 e then e - 1 else e)"

definition round_half_even :: "rat \<Rightarrow> int" where
  "round_half_even q =
     (let n = \<lfloor>q\<rfloor>; r = q - of_int n
      in if r < 1 / 2 then n else if 1 / 2 < r then n + 1 else if even n then n else n + 1)"

definition round_to :: "nat \<Rightarrow> rat \<Rightarrow> rat" where
  "round_to p q =
     (if q = 0 then 0
      else let u = pow2 (ilog2 q - int p + 1) in of_int (round_half_even (q / u)) * u)"

definition f32 :: "rat \<Rightarrow> rat" where
  "f32 = round_to 24"

definition f64 :: "rat \<Rightarrow> rat" where
  "f64 = round_to 53"

definition go_trunc :: "rat \<Rightarrow> int" where
  "go_trunc q = (if 0 \<le> q then \<lfloor>q\<rfloor> else \<lceil>q\<rceil>)"

text \<open>\<^verbatim>\<open>int(float32(count)/2 - 0.5)\<close> (lines 122 and 123).\<close>

definition half_count :: "int \<Rightarrow> int" where
  "half_count count = go_trunc (f32 (f32 (f32 (of_int count) / 2) - 1 / 2))"

text \<open>\<^verbatim>\<open>int(math.Ceil(float64(a)/float64(b)))\<close> (lines 124 and 125).\<close>

definition ceil_ratio :: "int \<Rightarrow> int \<Rightarrow> int" where
  "ceil_ratio a b = \<lceil>f64 (f64 (of_int a) / f64 (of_int b))\<rceil>"

subsection \<open>Package \<^verbatim>\<open>image\<close>: points and rectangles\<close>

text \<open>
  \<^verbatim>\<open>image.Point\<close> and \<^verbatim>\<open>image.Rectangle\<close> with the methods that \<^verbatim>\<open>draw\<close> and
  \<^verbatim>\<open>draw.Copy\<close> use. \<^verbatim>\<open>image.Rect\<close> swaps its arguments where needed so that
  \<^verbatim>\<open>Min\<close> is not beyond \<^verbatim>\<open>Max\<close>; a rectangle contains \<^verbatim>\<open>Min\<close> and excludes
  \<^verbatim>\<open>Max\<close>.
\<close>

datatype Point = Pt (pX: int) (pY: int)

datatype Rectangle = Rectangle (rMin: Point) (rMax: Point)

definition pt_Add :: "Point \<Rightarrow> Point \<Rightarrow> Point" where
  "pt_Add p q = Pt (pX p + pX q) (pY p + pY q)"

definition pt_Sub :: "Point \<Rightarrow> Point \<Rightarrow> Point" where
  "pt_Sub p q = Pt (pX p - pX q) (pY p - pY q)"

definition pt_In :: "Point \<Rightarrow> Rectangle \<Rightarrow> bool" where
  "pt_In p r \<longleftrightarrow>
     pX (rMin r) \<le> pX p \<and> pX p < pX (rMax r) \<and> pY (rMin r) \<le> pY p \<and> pY p < pY (rMax r)"

definition Rect :: "int \<Rightarrow> int \<Rightarrow> int \<Rightarrow> int \<Rightarrow> Rectangle" where
  "Rect x0 y0 x1 y1 =
     Rectangle (Pt (if x0 > x1 then x1 else x0) (if y0 > y1 then y1 else y0))
               (Pt (if x0 > x1 then x0 else x1) (if y0 > y1 then y0 else y1))"

definition ZR :: Rectangle where
  "ZR = Rectangle (Pt 0 0) (Pt 0 0)"

definition rect_Add :: "Rectangle \<Rightarrow> Point \<Rightarrow> Rectangle" where
  "rect_Add r p = Rectangle (pt_Add (rMin r) p) (pt_Add (rMax r) p)"

definition rect_Empty :: "Rectangle \<Rightarrow> bool" where
  "rect_Empty r \<longleftrightarrow> pX (rMin r) \<ge> pX (rMax r) \<or> pY (rMin r) \<ge> pY (rMax r)"

definition rect_Dx :: "Rectangle \<Rightarrow> int" where
  "rect_Dx r = pX (rMax r) - pX (rMin r)"

definition rect_Dy :: "Rectangle \<Rightarrow> int" where
  "rect_Dy r = pY (rMax r) - pY (rMin r)"

definition rect_Intersect :: "Rectangle \<Rightarrow> Rectangle \<Rightarrow> Rectangle" where
  "rect_Intersect r s =
     (let r1 = Rectangle
                 (Pt (if pX (rMin r) < pX (rMin s) then pX (rMin s) else pX (rMin r))
                     (if pY (rMin r) < pY (rMin s) then pY (rMin s) else pY (rMin r)))
                 (Pt (if pX (rMax r) > pX (rMax s) then pX (rMax s) else pX (rMax r))
                     (if pY (rMax r) > pY (rMax s) then pY (rMax s) else pY (rMax r)))
      in if rect_Empty r1 then ZR else r1)"

subsection \<open>Package \<^verbatim>\<open>image/color\<close>\<close>

text \<open>
  \<^verbatim>\<open>color.NRGBA\<close> is the pixel format of the widget's buffer: four bytes, the colour
  channels not multiplied by alpha. Every Go colour has a method \<^verbatim>\<open>RGBA()\<close> that
  returns four \<^verbatim>\<open>uint32\<close> channels in \<open>[0, 0xffff]\<close>, multiplied by alpha; a tile
  image is kept as these four 16-bit channels per pixel (\<^verbatim>\<open>color.RGBA64\<close>).
  \<open>NRGBA_RGBA\<close> is the method \<^verbatim>\<open>RGBA()\<close> of \<^verbatim>\<open>color.NRGBA\<close>, and \<open>nrgbaModel\<close>
  is the conversion of \<^verbatim>\<open>color.NRGBAModel\<close> that the method \<^verbatim>\<open>Set\<close> of the buffer applies.
\<close>

datatype color_NRGBA =
  color_NRGBA (cR: "8 word") (cG: "8 word") (cB: "8 word") (cA: "8 word")

datatype color_RGBA64 =
  color_RGBA64 (qR: "16 word") (qG: "16 word") (qB: "16 word") (qA: "16 word")

type_synonym rgba = "32 word \<times> 32 word \<times> 32 word \<times> 32 word"

definition RGBA64_RGBA :: "color_RGBA64 \<Rightarrow> rgba" where
  "RGBA64_RGBA c = (ucast (qR c), ucast (qG c), ucast (qB c), ucast (qA c))"

definition premultiply :: "8 word \<Rightarrow> 8 word \<Rightarrow> 32 word" where
  "premultiply v a = ((ucast v OR push_bit 8 (ucast v)) * ucast a) div 0xff"

definition NRGBA_RGBA :: "color_NRGBA \<Rightarrow> rgba" where
  "NRGBA_RGBA c =
     (premultiply (cR c) (cA c), premultiply (cG c) (cA c), premultiply (cB c) (cA c),
      ucast (cA c) OR push_bit 8 (ucast (cA c)))"

definition nrgbaModel :: "rgba \<Rightarrow> color_NRGBA" where
  "nrgbaModel c =
     (case c of (r, g, b, a) \<Rightarrow>
        if a = 0xffff
        then color_NRGBA (ucast (drop_bit 8 r)) (ucast (drop_bit 8 g)) (ucast (drop_bit 8 b)) 0xff
        else if a = 0 then color_NRGBA 0 0 0 0
        else color_NRGBA (ucast (drop_bit 8 ((r * 0xffff) div a)))
                         (ucast (drop_bit 8 ((g * 0xffff) div a)))
                         (ucast (drop_bit 8 ((b * 0xffff) div a)))
                         (ucast (drop_bit 8 a)))"

subsection \<open>Images and \<^verbatim>\<open>draw.Copy\<close>\<close>

text \<open>
  An \<^verbatim>\<open>image.Image\<close>, as \<^verbatim>\<open>getTile\<close> returns it, is its bounds and the colour at
  each point. The buffer \<^verbatim>\<open>*image.NRGBA\<close> is its rectangle and its pixels; the byte
  slice \<^verbatim>\<open>Pix\<close> with its stride is abstracted to a function of the coordinates.
  \<^verbatim>\<open>image.NewNRGBA\<close> yields a zeroed buffer (transparent black); the failure of an
  allocation for lack of memory is not modelled.
\<close>

record Image =
  img_Bounds :: Rectangle
  img_At :: "int \<Rightarrow> int \<Rightarrow> color_RGBA64"

record image_NRGBA =
  nr_Rect :: Rectangle
  nr_Pix :: "int \<Rightarrow> int \<Rightarrow> color_NRGBA"

definition NewNRGBA :: "Rectangle \<Rightarrow> image_NRGBA" where
  "NewNRGBA r = \<lparr>nr_Rect = r, nr_Pix = (\<lambda>_ _. color_NRGBA 0 0 0 0)\<rparr>"

definition NRGBA_At :: "image_NRGBA \<Rightarrow> int \<Rightarrow> int \<Rightarrow> color_NRGBA" where
  "NRGBA_At p i j = (if pt_In (Pt i j) (nr_Rect p) then nr_Pix p i j else color_NRGBA 0 0 0 0)"

text \<open>
  The Porter-Duff operators of \<^verbatim>\<open>image/draw\<close>. \<open>composite\<close> is what the general path
  of \<^verbatim>\<open>draw.DrawMask\<close> (no mask) stores for one pixel with source colour \<open>s\<close> over
  the destination colour \<open>d\<close>:
  \<^verbatim>\<open>a := m - (sa * ma / m); out.R = uint16((dr*a + sr*ma) / m); ...; dst.Set(x, y, &out)\<close>
  with \<^verbatim>\<open>m = 1<<16 - 1\<close> and \<^verbatim>\<open>ma = m\<close>.
\<close>

datatype Op = Over | Src

definition uint16 :: "32 word \<Rightarrow> 32 word" where
  "uint16 v = ucast (ucast v :: 16 word)"

definition composite :: "Op \<Rightarrow> color_RGBA64 \<Rightarrow> color_NRGBA \<Rightarrow> color_NRGBA" where
  "composite op s d =
     (case op of
        Src \<Rightarrow> nrgbaModel (RGBA64_RGBA s)
      | Over \<Rightarrow>
          (case RGBA64_RGBA s of (sr, sg, sb, sa) \<Rightarrow>
           case NRGBA_RGBA d of (dr, dg, db, da) \<Rightarrow>
             let m = 0xffff; a = m - (sa * m div m)
             in nrgbaModel (uint16 ((dr * a + sr * m) div m), uint16 ((dg * a + sg * m) div m),
                            uint16 ((db * a + sb * m) div m), uint16 ((da * a + sa * m) div m))))"

text \<open>
  \<^verbatim>\<open>draw.DrawMask(dst, r, src, sp, nil, image.Point{}, op)\<close>: the rectangle \<open>r\<close> is
  clipped to the destination and to the source (\<^verbatim>\<open>clip\<close>), and each pixel of what is
  left is composited from the source pixel that the translation assigns to it. Source and
  destination are different images here, so the pixels are independent of each other.
\<close>

definition DrawMask ::
  "image_NRGBA \<Rightarrow> Rectangle \<Rightarrow> Image \<Rightarrow> Point \<Rightarrow> Op \<Rightarrow> image_NRGBA" where
  "DrawMask dst r src sp op =
     (let orig = rMin r;
          r1 = rect_Intersect r (nr_Rect dst);
          r2 = rect_Intersect r1 (rect_Add (img_Bounds src) (pt_Sub orig sp));
          sp2 = pt_Add sp (pt_Sub (rMin r2) orig)
      in if rect_Empty r2 then dst
         else dst\<lparr>nr_Pix := (\<lambda>i j.
                if pt_In (Pt i j) r2
                then composite op
                       (img_At src (pX sp2 + (i - pX (rMin r2))) (pY sp2 + (j - pY (rMin r2))))
                       (NRGBA_At dst i j)
                else nr_Pix dst i j)\<rparr>)"

text \<open>
  \<^verbatim>\<open>draw.Copy(dst, dp, src, sr, op, nil)\<close> of \<^verbatim>\<open>golang.org/x/image/draw\<close>:
  \<^verbatim>\<open>dr := sr.Add(dp.Sub(sr.Min)); DrawMask(dst, dr, src, sr.Min, nil, image.Point{}, op)\<close>.
\<close>

definition Copy_dr :: "Point \<Rightarrow> Rectangle \<Rightarrow> Rectangle" where
  "Copy_dr dp sr = rect_Add sr (pt_Sub dp (rMin sr))"

definition Copy :: "image_NRGBA \<Rightarrow> Point \<Rightarrow> Image \<Rightarrow> Rectangle \<Rightarrow> Op \<Rightarrow> image_NRGBA" where
  "Copy dst dp src sr op = DrawMask dst (Copy_dr dp sr) src (rMin sr) op"

subsection \<open>The widget's state\<close>

text \<open>
  \<^verbatim>\<open>type Map struct { widget.BaseWidget; pixels *image.NRGBA; w, h int; zoom, x, y int;
  cl *http.Client }\<close>.
  The pointer \<^verbatim>\<open>pixels\<close> is an address of the store of pixel buffers (\<open>None\<close> is
  \<^verbatim>\<open>nil\<close>). Of the embedded \<^verbatim>\<open>BaseWidget\<close> only the number of repaint requests
  (\<^verbatim>\<open>m.Refresh()\<close>) is kept. The HTTP client \<^verbatim>\<open>cl\<close> is only ever handed to
  \<^verbatim>\<open>getTile\<close>; it is part of the tile source that \<open>draw\<close> takes as a parameter.
\<close>

record Map =
  m_pixels :: "nat option"
  m_w :: go_int
  m_h :: go_int
  m_zoom :: go_int
  m_x :: go_int
  m_y :: go_int
  m_refreshes :: nat

definition NewMap :: Map where
  "NewMap = \<lparr>m_pixels = None, m_w = 0, m_h = 0, m_zoom = 0, m_x = 0, m_y = 0,
             m_refreshes = 0\<rparr>"

definition Refresh :: "Map \<Rightarrow> Map" where
  "Refresh m = m\<lparr>m_refreshes := Suc (m_refreshes m)\<rparr>"

subsection \<open>The button handlers of \<^verbatim>\<open>CreateRenderer\<close>\<close>

text \<open>The closure of the zoom-in button (lines 55 to 63).\<close>

definition zoomIn :: "Map \<Rightarrow> Map" where
  "zoomIn m =
     (if 19 \<le>s m_zoom m then m
      else Refresh (m\<lparr>m_zoom := m_zoom m + 1, m_x := m_x m * 2, m_y := m_y m * 2\<rparr>))"

text \<open>The closure of the zoom-out button (lines 64 to 72).\<close>

definition zoomOut :: "Map \<Rightarrow> Map" where
  "zoomOut m =
     (if m_zoom m \<le>s 0 then m
      else Refresh (m\<lparr>m_zoom := m_zoom m - 1, m_x := go_quo (m_x m) 2,
                      m_y := go_quo (m_y m) 2\<rparr>))"

text \<open>The four pan buttons (lines 75 to 90), named after their icons.\<close>

definition moveUp :: "Map \<Rightarrow> Map" where
  "moveUp m = Refresh (m\<lparr>m_y := m_y m - 1\<rparr>)"

definition navigateBack :: "Map \<Rightarrow> Map" where
  "navigateBack m = Refresh (m\<lparr>m_x := m_x m - 1\<rparr>)"

definition navigateNext :: "Map \<Rightarrow> Map" where
  "navigateNext m = Refresh (m\<lparr>m_x := m_x m + 1\<rparr>)"

definition moveDown :: "Map \<Rightarrow> Map" where
  "moveDown m = Refresh (m\<lparr>m_y := m_y m + 1\<rparr>)"

subsection \<open>The environment of \<^verbatim>\<open>draw\<close>\<close>

text \<open>
  What \<^verbatim>\<open>draw\<close> reads and changes outside the struct: the store of pixel buffers (a
  buffer's address is its index; \<^verbatim>\<open>image.NewNRGBA\<close> appends), the calls of
  \<^verbatim>\<open>getTile\<close> made so far with their arguments \<open>(x, y, zoom)\<close>, and the errors handed to
  \<^verbatim>\<open>fyne.LogError\<close>.
\<close>

record env =
  heap :: "image_NRGBA list"
  fetched :: "(int \<times> int \<times> int) list"
  logged :: "string list"

text \<open>
  The collaborators of \<^verbatim>\<open>draw\<close>. \<^verbatim>\<open>getTile\<close> belongs to this package but its file is
  not among the sources, and \<^verbatim>\<open>resize.Resize\<close> is a library: both are parameters, the
  tile source yielding an error or an image for a tile coordinate.
  \<open>CanvasScale\<close> is the answer of \<^verbatim>\<open>fyne.CurrentApp().Driver().CanvasForObject(m)\<close>:
  \<open>None\<close> when there is no canvas, otherwise the canvas's \<^verbatim>\<open>Scale()\<close>.
\<close>

record host =
  getTile :: "int \<Rightarrow> int \<Rightarrow> int \<Rightarrow> string + Image"
  Resize :: "int \<Rightarrow> int \<Rightarrow> Image \<Rightarrow> Image"
  CanvasScale :: "rat option"

text \<open>
  The run-time panics \<^verbatim>\<open>draw\<close> can raise: \<^verbatim>\<open>draw.Copy\<close> on a \<^verbatim>\<open>nil\<close> buffer
  dereferences it, and a shift by a negative count panics.
\<close>

datatype panic = NilPointerDereference | NegativeShiftAmount

subsection \<open>\<^verbatim>\<open>draw\<close>\<close>

definition tileSize :: int where
  "tileSize = 256"

text \<open>The local variables of \<^verbatim>\<open>draw\<close> that its loops read.\<close>

record locals =
  l_scale :: int
  l_tileSize :: int
  l_w :: int
  l_h :: int
  l_midTileX :: int
  l_midTileY :: int
  l_zoom :: int
  l_count :: int
  l_mx :: int
  l_my :: int
  l_firstTileX :: int
  l_firstTileY :: int

text \<open>Lines 99 to 108: \<^verbatim>\<open>scale = int(c.Scale()); if scale < 1 { scale = 1 }\<close>.\<close>

definition draw_scale :: "host \<Rightarrow> int" where
  "draw_scale c =
     (case CanvasScale c of
        None \<Rightarrow> 1
      | Some s \<Rightarrow> (let scale = go_trunc s in if scale < 1 then 1 else scale))"

text \<open>Lines 99 to 108 and 114 to 125.\<close>

definition draw_locals :: "host \<Rightarrow> Map \<Rightarrow> go_int \<Rightarrow> go_int \<Rightarrow> locals" where
  "draw_locals c m w h =
     (let scale = draw_scale c;
          ts = (case CanvasScale c of None \<Rightarrow> tileSize | Some _ \<Rightarrow> tileSize * scale);
          midX = (sint w - ts * 2) sdiv 2;
          midY = (sint h - ts * 2) sdiv 2;
          midTileX = (if m_zoom m = 0 then midX + ts sdiv 2 else midX);
          midTileY = (if m_zoom m = 0 then midY + ts sdiv 2 else midY);
          count = sint (push_bit (nat (sint (m_zoom m))) (1 :: go_int));
          mx = sint (m_x m) + half_count count;
          my = sint (m_y m) + half_count count;
          firstTileX = mx - ceil_ratio midTileX ts;
          firstTileY = my - ceil_ratio midTileY ts
      in \<lparr>l_scale = scale, l_tileSize = ts, l_w = sint w, l_h = sint h,
          l_midTileX = midTileX, l_midTileY = midTileY, l_zoom = sint (m_zoom m),
          l_count = count, l_mx = mx, l_my = my,
          l_firstTileX = firstTileX, l_firstTileY = firstTileY\<rparr>)"

text \<open>
  Lines 139 and 140: the position \<^verbatim>\<open>pos\<close> of tile \<open>(i, j)\<close>, and the destination
  rectangle that \<^verbatim>\<open>draw.Copy\<close> derives from it for the source rectangle
  \<^verbatim>\<open>image.Rect(0, 0, tileSize, tileSize)\<close>.
\<close>

definition tile_pos :: "locals \<Rightarrow> int \<Rightarrow> int \<Rightarrow> Point" where
  "tile_pos L i j =
     Pt (l_midTileX L + (i - l_mx L) * l_tileSize L) (l_midTileY L + (j - l_my L) * l_tileSize L)"

definition tile_rect :: "locals \<Rightarrow> int \<Rightarrow> int \<Rightarrow> Rectangle" where
  "tile_rect L i j = Copy_dr (tile_pos L i j) (Rect 0 0 (l_tileSize L) (l_tileSize L))"

text \<open>
  The body of the inner loop (lines 129 to 145) for the candidate \<open>(i, j)\<close>. It yields the
  environment it leaves and the panic that ended it, if any. An address that is not in the
  store cannot arise in Go; it is treated like \<^verbatim>\<open>nil\<close>.
\<close>

definition draw_tile ::
  "host \<Rightarrow> Map \<Rightarrow> locals \<Rightarrow> int \<Rightarrow> int \<Rightarrow> env \<Rightarrow> panic option \<times> env" where
  "draw_tile c m L i j e =
     (if i < 0 \<or> j < 0 \<or> i \<ge> l_count L \<or> j \<ge> l_count L then (None, e)
      else
        let e1 = e\<lparr>fetched := fetched e @ [(i, j, l_zoom L)]\<rparr> in
        case getTile c i j (l_zoom L) of
          Inl err \<Rightarrow> (None, e1\<lparr>logged := logged e1 @ [err]\<rparr>)
        | Inr src \<Rightarrow>
            let pos = tile_pos L i j;
                scaled = (if l_scale L > 1
                          then Resize c (l_tileSize L) (l_tileSize L) src else src)
            in case m_pixels m of
                 None \<Rightarrow> (Some NilPointerDereference, e1)
               | Some a \<Rightarrow>
                   if a < length (heap e1)
                   then (None, e1\<lparr>heap := (heap e1)
                           [a := Copy (heap e1 ! a) pos scaled
                                   (Rect 0 0 (l_tileSize L) (l_tileSize L)) Over]\<rparr>)
                   else (Some NilPointerDereference, e1))"

text \<open>
  The two loops (lines 127 and 128). Nothing in a loop bounds the number of its rounds for
  an arbitrary tile size, so they are partial functions: \<open>None\<close> is a loop that runs for
  ever. \<open>draw\<close> itself always returns (\<open>draw_returns\<close> below).
\<close>

partial_function (option) loop_y ::
  "host \<Rightarrow> Map \<Rightarrow> locals \<Rightarrow> int \<Rightarrow> int \<Rightarrow> env \<Rightarrow> (panic option \<times> env) option" where
  "loop_y c m L i j e =
     (if (j - l_firstTileY L) * l_tileSize L \<le> l_h L + l_tileSize L
      then (case draw_tile c m L i j e of
              (Some p, e1) \<Rightarrow> Some (Some p, e1)
            | (None, e1) \<Rightarrow> loop_y c m L i (j + 1) e1)
      else Some (None, e))"

partial_function (option) loop_x ::
  "host \<Rightarrow> Map \<Rightarrow> locals \<Rightarrow> int \<Rightarrow> env \<Rightarrow> (panic option \<times> env) option" where
  "loop_x c m L i e =
     (if (i - l_firstTileX L) * l_tileSize L \<le> l_w L + l_tileSize L
      then (case loop_y c m L i (l_firstTileY L) e of
              None \<Rightarrow> None
            | Some (Some p, e1) \<Rightarrow> Some (Some p, e1)
            | Some (None, e1) \<Rightarrow> loop_x c m L (i + 1) e1)
      else Some (None, e))"

text \<open>
  Lines 110 to 112:
  \<^verbatim>\<open>if m.w != w || m.h != h { m.pixels = image.NewNRGBA(image.Rect(0, 0, w, h)) }\<close>.
  Neither here nor anywhere else are \<^verbatim>\<open>m.w\<close> and \<^verbatim>\<open>m.h\<close> assigned.
\<close>

definition ensure_pixels :: "Map \<Rightarrow> env \<Rightarrow> go_int \<Rightarrow> go_int \<Rightarrow> Map \<times> env" where
  "ensure_pixels m e w h =
     (if m_w m \<noteq> w \<or> m_h m \<noteq> h
      then (m\<lparr>m_pixels := Some (length (heap e))\<rparr>,
            e\<lparr>heap := heap e @ [NewNRGBA (Rect 0 0 (sint w) (sint h))]\<rparr>)
      else (m, e))"

text \<open>
  \<^verbatim>\<open>func (m *Map) draw(w, h int) image.Image\<close>. The result is the struct and the
  environment as the call leaves them, and either the panic that ended the call or the
  returned pointer \<^verbatim>\<open>m.pixels\<close>.
\<close>

definition draw ::
  "host \<Rightarrow> Map \<Rightarrow> env \<Rightarrow> go_int \<Rightarrow> go_int \<Rightarrow> (Map \<times> env \<times> (panic + nat option)) option" where
  "draw c m e w h =
     (case ensure_pixels m e w h of (m1, e1) \<Rightarrow>
        if sint (m_zoom m1) < 0 then Some (m1, e1, Inl NegativeShiftAmount)
        else
          let L = draw_locals c m1 w h in
          case loop_x c m1 L (l_firstTileX L) e1 of
            None \<Rightarrow> None
          | Some (Some p, e2) \<Rightarrow> Some (m1, e2, Inl p)
          | Some (None, e2) \<Rightarrow> Some (m1, e2, Inr (m_pixels m1)))"

subsection \<open>The loops as list traversals\<close>

text \<open>
  For a positive tile size the loop variable runs through an interval of integers; the
  loop is then the traversal of that interval that stops at the first panic.
\<close>

fun run_tiles ::
  "(int \<Rightarrow> env \<Rightarrow> panic option \<times> env) \<Rightarrow> int list \<Rightarrow> env \<Rightarrow> panic option \<times> env" where
  "run_tiles f [] e = (None, e)"
| "run_tiles f (j # js) e =
     (case f j e of (Some p, e1) \<Rightarrow> (Some p, e1) | (None, e1) \<Rightarrow> run_tiles f js e1)"

definition last_tile :: "int \<Rightarrow> int \<Rightarrow> int \<Rightarrow> int" where
  "last_tile first ts n = first + (n + ts) div ts"

definition run_column :: "host \<Rightarrow> Map \<Rightarrow> locals \<Rightarrow> int \<Rightarrow> env \<Rightarrow> panic option \<times> env" where
  "run_column c m L i e =
     run_tiles (draw_tile c m L i)
       [l_firstTileY L .. last_tile (l_firstTileY L) (l_tileSize L) (l_h L)] e"

definition run_grid :: "host \<Rightarrow> Map \<Rightarrow> locals \<Rightarrow> env \<Rightarrow> panic option \<times> env" where
  "run_grid c m L e =
     run_tiles (run_column c m L)
       [l_firstTileX L .. last_tile (l_firstTileX L) (l_tileSize L) (l_w L)] e"

text \<open>
  The fetch log grows by tiles that satisfy a given predicate; the tiles of the grid of the
  current zoom level.
\<close>

definition extends :: "((int \<times> int \<times> int) \<Rightarrow> bool) \<Rightarrow> env \<Rightarrow> env \<Rightarrow> bool" where
  "extends P e e' \<longleftrightarrow> (\<exists>new. fetched e' = fetched e @ new \<and> list_all P new)"

definition in_grid :: "locals \<Rightarrow> (int \<times> int \<times> int) \<Rightarrow> bool" where
  "in_grid L t \<longleftrightarrow>
     (case t of (i, j, z) \<Rightarrow>
        z = l_zoom L \<and> 0 \<le> i \<and> i < l_count L \<and> 0 \<le> j \<and> j < l_count L)"

subsection \<open>Tile sources and environments for the examples\<close>

text \<open>
  The empty environment; a host whose every fetch fails; a host that serves an opaque red
  tile and one that serves a fully transparent tile, both 256 pixels wide and high. All
  three hosts report a canvas of scale 1.
\<close>

definition env0 :: env where
  "env0 = \<lparr>heap = [], fetched = [], logged = []\<rparr>"

definition failing :: host where
  "failing = \<lparr>getTile = (\<lambda>_ _ _. Inl ''unreachable''), Resize = (\<lambda>_ _ s. s),
               CanvasScale = Some 1\<rparr>"

definition red_tile :: Image where
  "red_tile = \<lparr>img_Bounds = Rect 0 0 256 256,
                img_At = (\<lambda>_ _. color_RGBA64 0xffff 0 0 0xffff)\<rparr>"


definition red_host :: host where
  "red_host = \<lparr>getTile = (\<lambda>_ _ _. Inr red_tile), Resize = (\<lambda>_ _ s. s),
                CanvasScale = Some 1\<rparr>"


subsection \<open>The states the widget reaches\<close>

text \<open>
  The fields of the struct are private to the package: a widget starts as \<^verbatim>\<open>NewMap()\<close>
  and changes only through the six handlers and through \<^verbatim>\<open>draw\<close>.
\<close>

inductive reachable :: "Map \<Rightarrow> bool" where
  reach_new: "reachable NewMap"
| reach_zoomIn: "reachable m \<Longrightarrow> reachable (zoomIn m)"
| reach_zoomOut: "reachable m \<Longrightarrow> reachable (zoomOut m)"
| reach_moveUp: "reachable m \<Longrightarrow> reachable (moveUp m)"
| reach_navigateBack: "reachable m \<Longrightarrow> reachable (navigateBack m)"
| reach_navigateNext: "reachable m \<Longrightarrow> reachable (navigateNext m)"
| reach_moveDown: "reachable m \<Longrightarrow> reachable (moveDown m)"
| reach_draw: "reachable m \<Longrightarrow> draw c m e w h = Some (m', e', r) \<Longrightarrow> reachable m'"

section \<open>Properties of the handlers\<close>

subsection \<open>Arithmetic of doubling and halving\<close>

lemma sdiv_double: "(k * 2) sdiv 2 = (k::int)"
proof -
  have "\<bar>k * 2\<bar> div \<bar>2\<bar> = \<bar>k\<bar>"
    by (simp add: abs_mult)
  moreover have "sgn (k * 2) = sgn k"
    by (simp add: sgn_mult)
  ultimately show ?thesis
    by (simp add: signed_divide_int_def sgn_mult_abs)
qed

lemma sint_double:
  fixes v :: go_int
  assumes "- (2 ^ 62) \<le> sint v" and "sint v < 2 ^ 62"
  shows "sint (v * 2) = sint v * 2"
  using assms by (simp add: sint_word_ariths signed_take_bit_int_eq_self)

lemma go_quo_double:
  fixes v :: go_int
  assumes "- (2 ^ 62) \<le> sint v" and "sint v < 2 ^ 62"
  shows "go_quo (v * 2) 2 = v"
  using assms by (simp add: go_quo_def sint_double sdiv_double)

lemma zoom_succ_positive:
  fixes z :: go_int
  assumes "\<not> 19 \<le>s z" and "0 \<le>s z"
  shows "\<not> z + 1 \<le>s 0"
proof -
  from assms have "0 \<le> sint z" and "sint z < 19"
    by (simp_all add: word_sle_eq)
  then have "sint (z + 1) = sint z + 1"
    by (simp add: sint_word_ariths signed_take_bit_int_eq_self)
  with \<open>0 \<le> sint z\<close> show ?thesis
    by (simp add: word_sle_eq)
qed

lemma zoomOut_zoomIn:
  assumes "0 \<le>s m_zoom m" and "m_zoom m \<le>s 18"
    and "- (2 ^ 62) \<le> sint (m_x m)" and "sint (m_x m) < 2 ^ 62"
    and "- (2 ^ 62) \<le> sint (m_y m)" and "sint (m_y m) < 2 ^ 62"
  shows "zoomOut (zoomIn m) = m\<lparr>m_refreshes := m_refreshes m + 2\<rparr>"
proof -
  from assms(2) have small: "\<not> 19 \<le>s m_zoom m"
    by (simp add: word_sle_eq)
  then have pos: "\<not> m_zoom m + 1 \<le>s 0"
    using assms(1) by (rule zoom_succ_positive)
  show ?thesis
    using small pos assms(3-6)
    by (simp add: zoomIn_def zoomOut_def Refresh_def go_quo_double)
qed

lemma navigateNext_funpow:
  "(navigateNext ^^ n) m = m\<lparr>m_x := m_x m + of_nat n, m_refreshes := m_refreshes m + n\<rparr>"
  by (induction n) (simp_all add: navigateNext_def Refresh_def add.commute add.left_commute)

lemma navigateBack_funpow:
  "(navigateBack ^^ n) m = m\<lparr>m_x := m_x m - of_nat n, m_refreshes := m_refreshes m + n\<rparr>"
  by (induction n) (simp_all add: navigateBack_def Refresh_def diff_diff_eq add.commute)

lemma reachable_navigateNext_funpow: "reachable m \<Longrightarrow> reachable ((navigateNext ^^ n) m)"
  by (induction n) (simp_all add: reachable.reach_navigateNext)

lemma reachable_zoomIn_funpow: "reachable m \<Longrightarrow> reachable ((zoomIn ^^ n) m)"
  by (induction n) (simp_all add: reachable.reach_zoomIn)

text \<open>
  Three states that the buttons reach from a new widget: \<open>2^62\<close> steps to the right; one
  zoom-in and then \<open>2^62\<close> steps to the right; 19 zoom-ins and then 10 steps to the right.
\<close>

lemma far_right_state:
  "(navigateNext ^^ 4611686018427387904) NewMap =
     NewMap\<lparr>m_x := 4611686018427387904, m_refreshes := 4611686018427387904\<rparr>"
  by (simp add: navigateNext_funpow NewMap_def)

lemma far_right_zoomed_state:
  "(navigateNext ^^ 4611686018427387904) (zoomIn NewMap) =
     NewMap\<lparr>m_zoom := 1, m_x := 4611686018427387904, m_refreshes := 4611686018427387905\<rparr>"
  by (simp add: navigateNext_funpow NewMap_def zoomIn_def Refresh_def word_sle_eq)

lemma zoomed_in_state:
  "(navigateNext ^^ 10) ((zoomIn ^^ 19) NewMap) =
     NewMap\<lparr>m_zoom := 19, m_x := 10, m_refreshes := 29\<rparr>"
proof -
  have "(zoomIn ^^ 19) NewMap = NewMap\<lparr>m_zoom := 19, m_refreshes := 19\<rparr>"
    by (simp add: eval_nat_numeral zoomIn_def Refresh_def NewMap_def word_sle_eq)
  then show ?thesis
    by (simp add: navigateNext_funpow NewMap_def)
qed

subsection \<open>Panning\<close>

text \<open>
  C7: for every starting value of the stored x coordinate and every number of steps \<open>n\<close>,
  \<open>n\<close> presses of the pan-right button followed by \<open>n\<close> presses of the pan-left button
  leave the coordinate exactly as it was. The steps are inverse to each other even when an
  increment wraps around the 64-bit range; nothing is clamped or truncated. The other
  coordinate, the zoom level and the buffer fields are untouched as well.
\<close>

theorem pan_right_then_left:
  "m_x ((navigateBack ^^ n) ((navigateNext ^^ n) m)) = m_x m
   \<and> m_y ((navigateBack ^^ n) ((navigateNext ^^ n) m)) = m_y m
   \<and> m_zoom ((navigateBack ^^ n) ((navigateNext ^^ n) m)) = m_zoom m"
  by (simp add: navigateNext_funpow navigateBack_funpow)

theorem pan_right_then_left_witness:
  "m_x ((navigateBack ^^ 3) ((navigateNext ^^ 3) (NewMap\<lparr>m_x := 9223372036854775806\<rparr>)))
     = 9223372036854775806"
  using pan_right_then_left [of 3 "NewMap\<lparr>m_x := 9223372036854775806\<rparr>"]
  by simp

subsection \<open>Zooming\<close>

text \<open>
  C9: a refused zoom change leaves the whole state alone. Zoom-in at a zoom level of 19 or
  more, and zoom-out at a zoom level of 0 or less, return the state they were given: the
  zoom level, both stored coordinates and every other field are unchanged (the coordinates
  are neither doubled nor halved, and no repaint is requested).
\<close>

theorem zoom_refused_is_noop:
  "(19 \<le>s m_zoom m \<longrightarrow> zoomIn m = m) \<and> (m_zoom m \<le>s 0 \<longrightarrow> zoomOut m = m)"
  by (simp add: zoomIn_def zoomOut_def)

theorem zoom_refused_is_noop_witness:
  "zoomIn (NewMap\<lparr>m_zoom := 19, m_x := 5, m_y := 7\<rparr>) = NewMap\<lparr>m_zoom := 19, m_x := 5, m_y := 7\<rparr>
   \<and> zoomOut (NewMap\<lparr>m_x := 5, m_y := 7\<rparr>) = NewMap\<lparr>m_x := 5, m_y := 7\<rparr>"
  using zoom_refused_is_noop [of "NewMap\<lparr>m_zoom := 19, m_x := 5, m_y := 7\<rparr>"]
    zoom_refused_is_noop [of "NewMap\<lparr>m_x := 5, m_y := 7\<rparr>"]
  by (simp add: NewMap_def)

text \<open>
  C10, as stated, fails: for a state with a zoom level from 0 to 18, zoom-in followed by
  zoom-out is claimed to restore the zoom level and both coordinates exactly. The doubling
  \<^verbatim>\<open>m.x *= 2\<close> is a 64-bit multiplication: at \<open>x = 2^62\<close> it wraps to \<open>-2^63\<close>, and
  the halving then gives \<open>-2^62\<close>. The state is the one that \<open>2^62\<close> steps to the right
  reach from a new widget.
\<close>

theorem zoom_round_trip_overflow:
  "reachable ((navigateNext ^^ 4611686018427387904) NewMap)
   \<and> m_zoom ((navigateNext ^^ 4611686018427387904) NewMap) = 0
   \<and> sint (m_x ((navigateNext ^^ 4611686018427387904) NewMap)) = 4611686018427387904
   \<and> sint (m_x (zoomIn ((navigateNext ^^ 4611686018427387904) NewMap)))
       = - 9223372036854775808
   \<and> sint (m_x (zoomOut (zoomIn ((navigateNext ^^ 4611686018427387904) NewMap))))
       = - 4611686018427387904
   \<and> m_x (zoomOut (zoomIn ((navigateNext ^^ 4611686018427387904) NewMap)))
       \<noteq> m_x ((navigateNext ^^ 4611686018427387904) NewMap)"
proof -
  have "reachable ((navigateNext ^^ 4611686018427387904) NewMap)"
    by (rule reachable_navigateNext_funpow) (rule reachable.reach_new)
  then show ?thesis
    unfolding far_right_state
    by (simp add: NewMap_def zoomIn_def zoomOut_def Refresh_def go_quo_def
        signed_divide_int_def word_sle_eq)
qed

text \<open>
  C10, amended: for a state with a zoom level from 0 to 18 whose stored coordinates lie in
  \<open>[-2^62, 2^62)\<close>, so that doubling them does not overflow, zoom-in followed by zoom-out
  restores the zoom level and both coordinates exactly; the state differs from the
  original only in the two repaint requests.
\<close>

theorem zoom_round_trip_exact:
  assumes "0 \<le>s m_zoom m" and "m_zoom m \<le>s 18"
    and "- (2 ^ 62) \<le> sint (m_x m)" and "sint (m_x m) < 2 ^ 62"
    and "- (2 ^ 62) \<le> sint (m_y m)" and "sint (m_y m) < 2 ^ 62"
  shows "m_zoom (zoomOut (zoomIn m)) = m_zoom m
         \<and> m_x (zoomOut (zoomIn m)) = m_x m
         \<and> m_y (zoomOut (zoomIn m)) = m_y m
         \<and> zoomOut (zoomIn m) = m\<lparr>m_refreshes := m_refreshes m + 2\<rparr>"
  using zoomOut_zoomIn [OF assms] by simp

theorem zoom_round_trip_exact_witness:
  "m_zoom (zoomOut (zoomIn (NewMap\<lparr>m_zoom := 18, m_x := - 3, m_y := 262143\<rparr>))) = 18
   \<and> m_x (zoomOut (zoomIn (NewMap\<lparr>m_zoom := 18, m_x := - 3, m_y := 262143\<rparr>))) = - 3
   \<and> m_y (zoomOut (zoomIn (NewMap\<lparr>m_zoom := 18, m_x := - 3, m_y := 262143\<rparr>))) = 262143"
  using zoom_round_trip_exact [of "NewMap\<lparr>m_zoom := 18, m_x := - 3, m_y := 262143\<rparr>"]
  by (simp add: NewMap_def word_sle_eq)

text \<open>
  C4, as stated, fails: from any state with a zoom level of at least 1, zoom-in followed by
  zoom-out is claimed to end within one tile of the original centre. At zoom level 19 the
  zoom-in is refused and the zoom-out halves the coordinates: the centre \<open>(10, 0)\<close> ends
  at \<open>(5, 0)\<close>. At a lower zoom level a coordinate of \<open>2^62\<close> overflows when doubled and
  ends at \<open>-2^62\<close>. Both states are reached from a new widget by the buttons.
\<close>

theorem zoom_round_trip_drift:
  "reachable ((navigateNext ^^ 10) ((zoomIn ^^ 19) NewMap))
   \<and> 1 \<le>s m_zoom ((navigateNext ^^ 10) ((zoomIn ^^ 19) NewMap))
   \<and> sint (m_x ((navigateNext ^^ 10) ((zoomIn ^^ 19) NewMap))) = 10
   \<and> sint (m_x (zoomOut (zoomIn ((navigateNext ^^ 10) ((zoomIn ^^ 19) NewMap))))) = 5
   \<and> \<not> \<bar>sint (m_x (zoomOut (zoomIn ((navigateNext ^^ 10) ((zoomIn ^^ 19) NewMap)))))
          - sint (m_x ((navigateNext ^^ 10) ((zoomIn ^^ 19) NewMap)))\<bar> \<le> 1
   \<and> reachable ((navigateNext ^^ 4611686018427387904) (zoomIn NewMap))
   \<and> 1 \<le>s m_zoom ((navigateNext ^^ 4611686018427387904) (zoomIn NewMap))
   \<and> \<not> \<bar>sint (m_x (zoomOut (zoomIn ((navigateNext ^^ 4611686018427387904) (zoomIn NewMap)))))
          - sint (m_x ((navigateNext ^^ 4611686018427387904) (zoomIn NewMap)))\<bar> \<le> 1"
proof -
  have "reachable ((navigateNext ^^ 10) ((zoomIn ^^ 19) NewMap))"
    by (intro reachable_navigateNext_funpow reachable_zoomIn_funpow reachable.reach_new)
  moreover have "reachable ((navigateNext ^^ 4611686018427387904) (zoomIn NewMap))"
    by (intro reachable_navigateNext_funpow reachable.reach_zoomIn reachable.reach_new)
  ultimately show ?thesis
    unfolding zoomed_in_state far_right_zoomed_state
    by (simp add: NewMap_def zoomIn_def zoomOut_def Refresh_def go_quo_def
        signed_divide_int_def word_sle_eq)
qed

text \<open>
  C4, amended: from any state with a zoom level from 1 to 18 whose stored coordinates lie
  in \<open>[-2^62, 2^62)\<close>, zoom-in followed by zoom-out ends at the original zoom level with a
  centre within one tile of the original one on each axis (the drift is in fact 0).
\<close>

theorem zoom_round_trip_within_one:
  assumes "1 \<le>s m_zoom m" and "m_zoom m \<le>s 18"
    and "- (2 ^ 62) \<le> sint (m_x m)" and "sint (m_x m) < 2 ^ 62"
    and "- (2 ^ 62) \<le> sint (m_y m)" and "sint (m_y m) < 2 ^ 62"
  shows "\<bar>sint (m_x (zoomOut (zoomIn m))) - sint (m_x m)\<bar> \<le> 1
         \<and> \<bar>sint (m_y (zoomOut (zoomIn m))) - sint (m_y m)\<bar> \<le> 1
         \<and> m_zoom (zoomOut (zoomIn m)) = m_zoom m"
proof -
  from assms(1) have "0 \<le>s m_zoom m"
    by (simp add: word_sle_eq)
  from zoomOut_zoomIn [OF this assms(2-6)] show ?thesis
    by simp
qed

theorem zoom_round_trip_within_one_witness:
  "\<bar>sint (m_x (zoomOut (zoomIn (NewMap\<lparr>m_zoom := 1, m_x := 7, m_y := - 9\<rparr>)))) - 7\<bar> \<le> 1
   \<and> \<bar>sint (m_y (zoomOut (zoomIn (NewMap\<lparr>m_zoom := 1, m_x := 7, m_y := - 9\<rparr>)))) + 9\<bar> \<le> 1
   \<and> m_zoom (zoomOut (zoomIn (NewMap\<lparr>m_zoom := 1, m_x := 7, m_y := - 9\<rparr>))) = 1"
  using zoom_round_trip_within_one [of "NewMap\<lparr>m_zoom := 1, m_x := 7, m_y := - 9\<rparr>"]
  by (simp add: NewMap_def word_sle_eq)

section \<open>Properties of \<^verbatim>\<open>draw\<close>\<close>

subsection \<open>The loops terminate\<close>

lemma mult_le_iff_le_div:
  fixes c :: int
  assumes "0 < c"
  shows "k * c \<le> n \<longleftrightarrow> k \<le> n div c"
proof
  assume "k * c \<le> n"
  then have "(k * c) div c \<le> n div c"
    using assms by (rule zdiv_mono1)
  with assms show "k \<le> n div c"
    by simp
next
  assume "k \<le> n div c"
  then have "k * c \<le> (n div c) * c"
    using assms by (simp add: mult_right_mono)
  also have "\<dots> = n - n mod c"
    by (simp add: minus_mod_eq_div_mult)
  also have "\<dots> \<le> n"
    using assms by simp
  finally show "k * c \<le> n" .
qed

lemma loop_cond_iff:
  fixes ts :: int
  assumes "0 < ts"
  shows "(j - first) * ts \<le> n + ts \<longleftrightarrow> j \<le> last_tile first ts n"
  unfolding last_tile_def mult_le_iff_le_div [OF assms] by auto

lemma loop_y_closed:
  assumes "0 < l_tileSize L"
  shows "loop_y c m L i j e =
    Some (run_tiles (draw_tile c m L i) [j .. last_tile (l_firstTileY L) (l_tileSize L) (l_h L)] e)"
proof (induction "nat (last_tile (l_firstTileY L) (l_tileSize L) (l_h L) - j + 1)" arbitrary: j e)
  case 0
  then have "\<not> j \<le> last_tile (l_firstTileY L) (l_tileSize L) (l_h L)" by simp
  then show ?case
    by (subst loop_y.simps) (simp add: loop_cond_iff [OF assms])
next
  case (Suc k)
  then have le: "j \<le> last_tile (l_firstTileY L) (l_tileSize L) (l_h L)" by simp
  from Suc have "k = nat (last_tile (l_firstTileY L) (l_tileSize L) (l_h L) - (j + 1) + 1)" by simp
  note IH = Suc.hyps(1) [OF this]
  show ?case
    apply (subst loop_y.simps)
    apply (simp add: loop_cond_iff [OF assms] le upto_rec1 [OF le] IH split: prod.splits option.splits)
    done
qed


lemma loop_x_closed:
  assumes "0 < l_tileSize L"
  shows "loop_x c m L i e =
    Some (run_tiles (run_column c m L) [i .. last_tile (l_firstTileX L) (l_tileSize L) (l_w L)] e)"
proof (induction "nat (last_tile (l_firstTileX L) (l_tileSize L) (l_w L) - i + 1)" arbitrary: i e)
  case 0
  then have "\<not> i \<le> last_tile (l_firstTileX L) (l_tileSize L) (l_w L)" by simp
  then show ?case
    by (subst loop_x.simps) (simp add: loop_cond_iff [OF assms])
next
  case (Suc k)
  then have le: "i \<le> last_tile (l_firstTileX L) (l_tileSize L) (l_w L)" by simp
  from Suc have "k = nat (last_tile (l_firstTileX L) (l_tileSize L) (l_w L) - (i + 1) + 1)" by simp
  note IH = Suc.hyps(1) [OF this]
  show ?case
    apply (subst loop_x.simps)
    apply (simp add: loop_cond_iff [OF assms] le upto_rec1 [OF le] IH loop_y_closed [OF assms]
        run_column_def split: prod.splits option.splits)
    done
qed

lemma draw_scale_pos: "1 \<le> draw_scale c"
  by (simp add: draw_scale_def Let_def split: option.splits)

lemma draw_locals_tileSize: "l_tileSize (draw_locals c m w h) = 256 * draw_scale c"
  by (simp add: draw_locals_def Let_def tileSize_def draw_scale_def split: option.splits)

lemma draw_locals_tileSize_pos: "0 < l_tileSize (draw_locals c m w h)"
  using draw_scale_pos [of c] by (simp add: draw_locals_tileSize)

lemma draw_closed:
  "draw c m e w h =
     (case ensure_pixels m e w h of (m1, e1) \<Rightarrow>
        if sint (m_zoom m1) < 0 then Some (m1, e1, Inl NegativeShiftAmount)
        else case run_grid c m1 (draw_locals c m1 w h) e1 of
               (Some p, e2) \<Rightarrow> Some (m1, e2, Inl p)
             | (None, e2) \<Rightarrow> Some (m1, e2, Inr (m_pixels m1)))"
  by (simp add: draw_def Let_def loop_x_closed [OF draw_locals_tileSize_pos] run_grid_def
      split: prod.splits option.splits)

lemma draw_returns: "\<exists>r. draw c m e w h = Some r"
  by (simp add: draw_closed split: prod.splits option.splits)

subsection \<open>Values of the floating-point expressions\<close>

lemma half_count_1: "half_count 1 = 0"
  by code_simp

lemma half_count_2: "half_count 2 = 0"
  by code_simp

lemma ceil_ratio_128: "ceil_ratio 128 256 = 1"
  by code_simp

lemma ceil_ratio_0: "ceil_ratio 0 256 = 0"
  by code_simp

lemma ceil_ratio_m128: "ceil_ratio (-128) 256 = 0"
  by code_simp


subsection \<open>The tiles that are fetched\<close>

lemma uint_two_power_le: "uint ((2 :: go_int) ^ n) \<le> 2 ^ n"
proof (cases "(2 :: go_int) ^ n = 0")
  case True
  show ?thesis unfolding True by simp
next
  case False
  then have "0 < (2 :: go_int) ^ n"
    by (simp add: word_gt_0)
  from uint_2p [OF this] show ?thesis by simp
qed

lemma sint_two_power_le: "sint ((2 :: go_int) ^ n) \<le> 2 ^ n"
proof -
  have "sint ((2 :: go_int) ^ n) = signed_take_bit 63 (uint ((2 :: go_int) ^ n))"
    by (simp add: sint_uint)
  also have "\<dots> \<le> uint ((2 :: go_int) ^ n)"
  proof -
    have "- (2 ^ 63) \<le> (0 :: int)" by simp
    also have "0 \<le> uint ((2 :: go_int) ^ n)" by simp
    finally show ?thesis
      by (simp only: signed_take_bit_int_less_eq_self_iff)
  qed
  also note uint_two_power_le
  finally show ?thesis .
qed

lemma draw_locals_count: "l_count (draw_locals c m w h) \<le> 2 ^ nat (sint (m_zoom m))"
  by (simp add: draw_locals_def Let_def sint_two_power_le)

lemma draw_locals_zoom: "l_zoom (draw_locals c m w h) = sint (m_zoom m)"
  by (simp add: draw_locals_def Let_def)

lemma draw_locals_pixels: "draw_locals c (m\<lparr>m_pixels := a\<rparr>) w h = draw_locals c m w h"
  by (simp add: draw_locals_def)

lemma extends_refl: "extends P e e"
  by (simp add: extends_def)

lemma extends_trans: "extends P e e1 \<Longrightarrow> extends P e1 e2 \<Longrightarrow> extends P e e2"
  by (auto simp: extends_def)

lemma run_tiles_extends:
  assumes step: "\<And>j e p e'. f j e = (p, e') \<Longrightarrow> extends P e e'"
  shows "run_tiles f js e = (p, e') \<Longrightarrow> extends P e e'"
proof (induction js arbitrary: e)
  case Nil
  then show ?case by (simp add: extends_refl)
next
  case (Cons j js)
  obtain q e1 where f: "f j e = (q, e1)" by (cases "f j e")
  from step [OF f] have 1: "extends P e e1" .
  show ?case
  proof (cases q)
    case None
    with Cons.prems f have "run_tiles f js e1 = (p, e')" by simp
    from Cons.IH [OF this] 1 show ?thesis by (blast intro: extends_trans)
  next
    case (Some a)
    with Cons.prems f have "e' = e1" by simp
    with 1 show ?thesis by simp
  qed
qed

lemma draw_tile_extends: "draw_tile c m L i j e = (p, e') \<Longrightarrow> extends (in_grid L) e e'"
  by (auto simp: draw_tile_def extends_def in_grid_def Let_def
      split: if_splits sum.splits option.splits)

lemma run_column_extends: "run_column c m L i e = (p, e') \<Longrightarrow> extends (in_grid L) e e'"
  unfolding run_column_def by (rule run_tiles_extends) (rule draw_tile_extends)

lemma run_grid_extends: "run_grid c m L e = (p, e') \<Longrightarrow> extends (in_grid L) e e'"
  unfolding run_grid_def by (rule run_tiles_extends) (rule run_column_extends)

lemma ensure_pixels_fetched: "ensure_pixels m e w h = (m1, e1) \<Longrightarrow> fetched e1 = fetched e"
  by (auto simp: ensure_pixels_def split: if_splits)

lemma ensure_pixels_Map:
  "ensure_pixels m e w h = (m1, e1) \<Longrightarrow> \<exists>a. m1 = m\<lparr>m_pixels := a\<rparr>"
  by (auto simp: ensure_pixels_def split: if_splits intro: exI [of _ "m_pixels m"])

lemma draw_extends:
  assumes "draw c m e w h = Some (m', e', r)"
  shows "extends (in_grid (draw_locals c m w h)) e e'"
proof -
  obtain m1 e1 where ens: "ensure_pixels m e w h = (m1, e1)"
    by (cases "ensure_pixels m e w h")
  from ensure_pixels_Map [OF ens] obtain a where m1: "m1 = m\<lparr>m_pixels := a\<rparr>" ..
  have L: "draw_locals c m1 w h = draw_locals c m w h"
    by (simp add: m1 draw_locals_pixels)
  have start: "extends (in_grid (draw_locals c m w h)) e e1"
    using ensure_pixels_fetched [OF ens] by (simp add: extends_def)
  show ?thesis
  proof (cases "sint (m_zoom m1) < 0")
    case True
    with assms ens have "e' = e1" by (simp add: draw_closed)
    with start show ?thesis by simp
  next
    case False
    obtain q e2 where g: "run_grid c m1 (draw_locals c m w h) e1 = (q, e2)"
      by (cases "run_grid c m1 (draw_locals c m w h) e1")
    with assms ens False L have "e' = e2"
      by (auto simp: draw_closed split: option.splits)
    with run_grid_extends [OF g] start show ?thesis
      by (blast intro: extends_trans)
  qed
qed

text \<open>
  C1: whatever the state and the requested size, every tile \<open>(x, y)\<close> that a call of
  \<open>draw\<close> fetches is fetched for the current zoom level \<open>z\<close> and satisfies
  \<open>0 \<le> x < 2^z\<close> and \<open>0 \<le> y < 2^z\<close>. A candidate outside \<open>[0, 2^z)\<close> on either axis
  is skipped: the loop body leaves the environment as it found it, so nothing is fetched,
  logged or drawn for it, and no coordinate is wrapped around. (At a negative zoom level
  the call panics before the loops and fetches nothing.)
\<close>

theorem fetched_tiles_in_grid:
  assumes "draw c m e w h = Some (m', e', r)"
  shows "(\<exists>new. fetched e' = fetched e @ new \<and>
            (\<forall>(i, j, z) \<in> set new.
               z = sint (m_zoom m) \<and> 0 \<le> i \<and> i < 2 ^ nat z \<and> 0 \<le> j \<and> j < 2 ^ nat z))
         \<and> (\<forall>i j e0. i < 0 \<or> 2 ^ nat (sint (m_zoom m)) \<le> i \<or> j < 0 \<or> 2 ^ nat (sint (m_zoom m)) \<le> j
               \<longrightarrow> draw_tile c m' (draw_locals c m w h) i j e0 = (None, e0))"
proof
  from draw_extends [OF assms] obtain new
    where new: "fetched e' = fetched e @ new" "list_all (in_grid (draw_locals c m w h)) new"
    by (auto simp: extends_def)
  have "\<forall>(i, j, z) \<in> set new.
      z = sint (m_zoom m) \<and> 0 \<le> i \<and> i < 2 ^ nat z \<and> 0 \<le> j \<and> j < 2 ^ nat z"
    using new(2) draw_locals_count [of c m w h]
    by (auto simp: list_all_iff in_grid_def draw_locals_zoom)
  with new(1) show "\<exists>new. fetched e' = fetched e @ new \<and>
            (\<forall>(i, j, z) \<in> set new.
               z = sint (m_zoom m) \<and> 0 \<le> i \<and> i < 2 ^ nat z \<and> 0 \<le> j \<and> j < 2 ^ nat z)"
    by blast
next
  show "\<forall>i j e0. i < 0 \<or> 2 ^ nat (sint (m_zoom m)) \<le> i \<or> j < 0 \<or> 2 ^ nat (sint (m_zoom m)) \<le> j
               \<longrightarrow> draw_tile c m' (draw_locals c m w h) i j e0 = (None, e0)"
    using draw_locals_count [of c m w h] by (auto simp: draw_tile_def)
qed

lemma draw_failing_zoom1:
  "draw failing (NewMap\<lparr>m_zoom := 1\<rparr>) env0 512 512 =
     Some (NewMap\<lparr>m_zoom := 1, m_pixels := Some 0\<rparr>,
           \<lparr>heap = [NewNRGBA (Rect 0 0 512 512)],
            fetched = [(0, 0, 1), (0, 1, 1), (1, 0, 1), (1, 1, 1)],
            logged = [''unreachable'', ''unreachable'', ''unreachable'', ''unreachable'']\<rparr>,
           Inr (Some 0))"
  apply (simp add: draw_closed ensure_pixels_def NewMap_def env0_def)
  apply (simp add: draw_locals_def failing_def NewMap_def tileSize_def draw_scale_def go_trunc_def signed_divide_int_def half_count_1 half_count_2 ceil_ratio_128 ceil_ratio_0)
  apply (simp add: run_grid_def run_column_def last_tile_def draw_tile_def upto_rec1)
  done

theorem fetched_tiles_in_grid_witness:
  "\<exists>new. [(0, 0, 1), (0, 1, 1), (1, 0, 1), (1, 1, 1)] = [] @ new \<and>
      (\<forall>(i, j, z) \<in> set new. z = (1::int) \<and> (0::int) \<le> i \<and> i < 2 ^ nat z \<and> (0::int) \<le> j \<and> j < 2 ^ nat z)"
  using fetched_tiles_in_grid [OF draw_failing_zoom1]
  by (simp add: env0_def NewMap_def)

subsection \<open>Placement of the tiles\<close>







subsection \<open>One tile at zoom level 0\<close>

lemma draw_locals_zoom0:
  assumes "draw_scale c = 1" and "m_zoom m = 0" and "m_x m = 0" and "m_y m = 0"
  shows "draw_locals c m 512 512 =
     \<lparr>l_scale = 1, l_tileSize = 256, l_w = 512, l_h = 512, l_midTileX = 128,
      l_midTileY = 128, l_zoom = 0, l_count = 1, l_mx = 0, l_my = 0,
      l_firstTileX = - 1, l_firstTileY = - 1\<rparr>"
  using assms
  by (simp add: draw_locals_def tileSize_def signed_divide_int_def half_count_1 ceil_ratio_128
      split: option.splits)

lemma run_grid_zoom0:
  assumes L: "L = \<lparr>l_scale = 1, l_tileSize = 256, l_w = 512, l_h = 512, l_midTileX = 128,
      l_midTileY = 128, l_zoom = 0, l_count = 1, l_mx = 0, l_my = 0,
      l_firstTileX = - 1, l_firstTileY = - 1\<rparr>"
  shows "run_grid c m L e = draw_tile c m L 0 0 e"
proof -
  have skip: "\<And>i j e. i \<noteq> 0 \<or> j \<noteq> 0 \<Longrightarrow> draw_tile c m L i j e = (None, e)"
    by (auto simp: draw_tile_def L)
  have cols: "[l_firstTileX L .. last_tile (l_firstTileX L) (l_tileSize L) (l_w L)] = [- 1, 0, 1, 2]"
    and rows: "[l_firstTileY L .. last_tile (l_firstTileY L) (l_tileSize L) (l_h L)] = [- 1, 0, 1, 2]"
    by (simp_all add: L last_tile_def upto_rec1)
  have other: "\<And>i e. i \<noteq> 0 \<Longrightarrow> run_column c m L i e = (None, e)"
    by (simp add: run_column_def rows skip)
  have zero: "\<And>e. run_column c m L 0 e = draw_tile c m L 0 0 e"
    by (simp add: run_column_def rows skip split: prod.splits option.splits)
  show ?thesis
    by (simp add: run_grid_def cols other zero split: prod.splits option.splits)
qed

lemma draw_zoom0:
  assumes "draw_scale c = 1" and "m_zoom m = 0" and "m_x m = 0" and "m_y m = 0"
  shows "draw c m e 512 512 =
     (case ensure_pixels m e 512 512 of (m1, e1) \<Rightarrow>
        case draw_tile c m1 (draw_locals c m 512 512) 0 0 e1 of
          (Some p, e2) \<Rightarrow> Some (m1, e2, Inl p)
        | (None, e2) \<Rightarrow> Some (m1, e2, Inr (m_pixels m1)))"
proof -
  obtain m1 e1 where ens: "ensure_pixels m e 512 512 = (m1, e1)"
    by (cases "ensure_pixels m e 512 512")
  from ensure_pixels_Map [OF ens] obtain a where m1: "m1 = m\<lparr>m_pixels := a\<rparr>" ..
  have L: "draw_locals c m1 512 512 = draw_locals c m 512 512"
    by (simp add: m1 draw_locals_pixels)
  have z: "\<not> sint (m_zoom m1) < 0"
    by (simp add: m1 assms)
  show ?thesis
    by (simp add: draw_closed ens z L run_grid_zoom0 [OF draw_locals_zoom0 [OF assms]])
qed

text \<open>
  C8: at zoom level 0 with the stored centre \<open>(0, 0)\<close>, a canvas of scale 1 and a
  requested size of 512 by 512 pixels, \<open>draw\<close> returns after fetching exactly one tile,
  \<open>(x = 0, y = 0, zoom = 0)\<close>. The destination rectangle of that tile is the square from
  \<open>(128, 128)\<close> to \<open>(384, 384)\<close>, the centre of the buffer. When the fetch delivers an
  image, \<open>draw\<close> copies it to the position \<open>(128, 128)\<close>: of the fresh buffer of 512 by
  512 pixels when the size fields differ from the request (as they do in every state the
  widget reaches), of the buffer it keeps otherwise.
\<close>

theorem single_tile_at_zoom0:
  assumes "draw_scale c = 1" and "m_zoom m = 0" and "m_x m = 0" and "m_y m = 0"
  shows "(\<exists>m' e' r. draw c m e 512 512 = Some (m', e', r) \<and> fetched e' = fetched e @ [(0, 0, 0)])
    \<and> tile_rect (draw_locals c m 512 512) 0 0 = Rectangle (Pt 128 128) (Pt 384 384)
    \<and> (\<forall>src. (m_w m \<noteq> 512 \<or> m_h m \<noteq> 512) \<and> getTile c 0 0 0 = Inr src \<longrightarrow>
          draw c m e 512 512 =
            Some (m\<lparr>m_pixels := Some (length (heap e))\<rparr>,
                  e\<lparr>heap := heap e @ [Copy (NewNRGBA (Rect 0 0 512 512)) (Pt 128 128) src
                                         (Rect 0 0 256 256) Over],
                    fetched := fetched e @ [(0, 0, 0)]\<rparr>,
                  Inr (Some (length (heap e)))))
    \<and> (\<forall>src a. m_w m = 512 \<and> m_h m = 512 \<and> m_pixels m = Some a \<and> a < length (heap e)
                \<and> getTile c 0 0 0 = Inr src \<longrightarrow>
          draw c m e 512 512 =
            Some (m,
                  e\<lparr>heap := (heap e)[a := Copy (heap e ! a) (Pt 128 128) src
                                            (Rect 0 0 256 256) Over],
                    fetched := fetched e @ [(0, 0, 0)]\<rparr>,
                  Inr (Some a)))"
proof (intro conjI allI impI)
  note L = draw_locals_zoom0 [OF assms]
  show "\<exists>m' e' r. draw c m e 512 512 = Some (m', e', r) \<and> fetched e' = fetched e @ [(0, 0, 0)]"
    by (auto simp: draw_zoom0 [OF assms] L ensure_pixels_def draw_tile_def Let_def
        split: sum.splits option.splits)
  show "tile_rect (draw_locals c m 512 512) 0 0 = Rectangle (Pt 128 128) (Pt 384 384)"
    by (simp add: L tile_rect_def tile_pos_def Copy_dr_def Rect_def rect_Add_def pt_Add_def
        pt_Sub_def)
  show "draw c m e 512 512 =
            Some (m\<lparr>m_pixels := Some (length (heap e))\<rparr>,
                  e\<lparr>heap := heap e @ [Copy (NewNRGBA (Rect 0 0 512 512)) (Pt 128 128) src
                                         (Rect 0 0 256 256) Over],
                    fetched := fetched e @ [(0, 0, 0)]\<rparr>,
                  Inr (Some (length (heap e))))"
    if "(m_w m \<noteq> 512 \<or> m_h m \<noteq> 512) \<and> getTile c 0 0 0 = Inr src" for src
    using that
    by (auto simp: draw_zoom0 [OF assms] L ensure_pixels_def draw_tile_def tile_pos_def)
  show "draw c m e 512 512 =
            Some (m,
                  e\<lparr>heap := (heap e)[a := Copy (heap e ! a) (Pt 128 128) src
                                            (Rect 0 0 256 256) Over],
                    fetched := fetched e @ [(0, 0, 0)]\<rparr>,
                  Inr (Some a))"
    if "m_w m = 512 \<and> m_h m = 512 \<and> m_pixels m = Some a \<and> a < length (heap e)
                \<and> getTile c 0 0 0 = Inr src" for src a
    using that
    by (auto simp: draw_zoom0 [OF assms] L ensure_pixels_def draw_tile_def tile_pos_def)
qed

lemma draw_scale_red_host: "draw_scale red_host = 1"
  by (simp add: draw_scale_def red_host_def go_trunc_def)

theorem single_tile_at_zoom0_witness:
  "draw red_host NewMap env0 512 512 =
     Some (NewMap\<lparr>m_pixels := Some 0\<rparr>,
           \<lparr>heap = [Copy (NewNRGBA (Rect 0 0 512 512)) (Pt 128 128) red_tile
                      (Rect 0 0 256 256) Over],
            fetched = [(0, 0, 0)], logged = []\<rparr>,
           Inr (Some 0))
   \<and> tile_rect (draw_locals red_host NewMap 512 512) 0 0 = Rectangle (Pt 128 128) (Pt 384 384)"
proof -
  have z: "m_zoom NewMap = 0" "m_x NewMap = 0" "m_y NewMap = 0"
    by (simp_all add: NewMap_def)
  note th = single_tile_at_zoom0 [OF draw_scale_red_host z, of env0]
  from th have "tile_rect (draw_locals red_host NewMap 512 512) 0 0
      = Rectangle (Pt 128 128) (Pt 384 384)"
    by (elim conjE)
  moreover from th have "\<forall>src. (m_w NewMap \<noteq> 512 \<or> m_h NewMap \<noteq> 512)
        \<and> getTile red_host 0 0 0 = Inr src \<longrightarrow>
          draw red_host NewMap env0 512 512 =
            Some (NewMap\<lparr>m_pixels := Some (length (heap env0))\<rparr>,
                  env0\<lparr>heap := heap env0 @ [Copy (NewNRGBA (Rect 0 0 512 512)) (Pt 128 128) src
                                         (Rect 0 0 256 256) Over],
                    fetched := fetched env0 @ [(0, 0, 0)]\<rparr>,
                  Inr (Some (length (heap env0))))"
    by (elim conjE)
  then have "draw red_host NewMap env0 512 512 =
     Some (NewMap\<lparr>m_pixels := Some 0\<rparr>,
           \<lparr>heap = [Copy (NewNRGBA (Rect 0 0 512 512)) (Pt 128 128) red_tile
                      (Rect 0 0 256 256) Over],
            fetched = [(0, 0, 0)], logged = []\<rparr>,
           Inr (Some 0))"
    by (simp add: NewMap_def red_host_def env0_def)
  ultimately show ?thesis by simp
qed

subsection \<open>The pixel buffer across calls\<close>

lemma run_tiles_rel:
  assumes refl: "\<And>e. R e e"
    and trans: "\<And>a b c. R a b \<Longrightarrow> R b c \<Longrightarrow> R a c"
    and step: "\<And>j e p e'. f j e = (p, e') \<Longrightarrow> R e e'"
  shows "run_tiles f js e = (p, e') \<Longrightarrow> R e e'"
proof (induction js arbitrary: e)
  case Nil
  then show ?case by (simp add: refl)
next
  case (Cons j js)
  obtain q e1 where f: "f j e = (q, e1)" by (cases "f j e")
  from step [OF f] have 1: "R e e1" .
  show ?case
  proof (cases q)
    case None
    with Cons.prems f have "run_tiles f js e1 = (p, e')" by simp
    from trans [OF 1 Cons.IH [OF this]] show ?thesis .
  next
    case (Some a)
    with Cons.prems f have "e' = e1" by simp
    with 1 show ?thesis by simp
  qed
qed

lemma draw_tile_heap_length:
  "draw_tile c m L i j e = (p, e') \<Longrightarrow> length (heap e') = length (heap e)"
  by (auto simp: draw_tile_def Let_def split: if_splits sum.splits option.splits)

lemma run_grid_heap_length:
  assumes "run_grid c m L e = (p, e')"
  shows "length (heap e') = length (heap e)"
proof -
  have col: "\<And>i e p e'. run_column c m L i e = (p, e') \<Longrightarrow> length (heap e') = length (heap e)"
    unfolding run_column_def
    by (rule run_tiles_rel [where R = "\<lambda>e e'. length (heap e') = length (heap e)"])
      (simp_all add: draw_tile_heap_length)
  from assms show ?thesis
    unfolding run_grid_def
    by (rule run_tiles_rel [where R = "\<lambda>e e'. length (heap e') = length (heap e)", rotated 3])
      (simp_all add: col)
qed

text \<open>
  What a call of \<open>draw\<close> does to the buffer pointer and the store. The size fields are
  returned as they were: a later call compares its request with the same values again.
\<close>

lemma draw_buffer:
  assumes "draw c m e w h = Some (m', e', r)"
  shows "m_w m' = m_w m \<and> m_h m' = m_h m"
    and "m_w m \<noteq> w \<or> m_h m \<noteq> h \<Longrightarrow>
           m_pixels m' = Some (length (heap e)) \<and> length (heap e') = Suc (length (heap e))"
    and "m_w m = w \<and> m_h m = h \<Longrightarrow>
           m_pixels m' = m_pixels m \<and> length (heap e') = length (heap e)"
proof -
  obtain m1 e1 where ens: "ensure_pixels m e w h = (m1, e1)"
    by (cases "ensure_pixels m e w h")
  have m': "m' = m1" and len: "length (heap e') = length (heap e1)"
    using assms ens
    by (auto simp: draw_closed dest: run_grid_heap_length split: if_splits prod.splits option.splits)
  from ens show "m_w m' = m_w m \<and> m_h m' = m_h m"
    by (auto simp: m' ensure_pixels_def split: if_splits)
  from ens show "m_pixels m' = Some (length (heap e)) \<and> length (heap e') = Suc (length (heap e))"
    if "m_w m \<noteq> w \<or> m_h m \<noteq> h"
    using that by (auto simp: m' len ensure_pixels_def)
  from ens show "m_pixels m' = m_pixels m \<and> length (heap e') = length (heap e)"
    if "m_w m = w \<and> m_h m = h"
    using that by (auto simp: m' len ensure_pixels_def)
qed

text \<open>
  C2 does not hold of the code. The claim: across successive calls the buffer is reused
  whenever the requested size equals that of the previous call, and a new one is allocated
  only when the size changes. Two calls with the size 512 by 512 on a new widget: the
  second call allocates a second buffer (address 1) and returns it; the buffer of the first
  call (address 0) is left behind. The test of line 110 compares the request with
  \<^verbatim>\<open>m.w\<close> and \<^verbatim>\<open>m.h\<close>, which no line of the file assigns.
\<close>

theorem buffer_not_reused:
  "draw red_host NewMap env0 512 512 =
     Some (NewMap\<lparr>m_pixels := Some 0\<rparr>,
           \<lparr>heap = [Copy (NewNRGBA (Rect 0 0 512 512)) (Pt 128 128) red_tile
                      (Rect 0 0 256 256) Over],
            fetched = [(0, 0, 0)], logged = []\<rparr>,
           Inr (Some 0))
   \<and> draw red_host (NewMap\<lparr>m_pixels := Some 0\<rparr>)
        \<lparr>heap = [Copy (NewNRGBA (Rect 0 0 512 512)) (Pt 128 128) red_tile
                   (Rect 0 0 256 256) Over],
         fetched = [(0, 0, 0)], logged = []\<rparr> 512 512 =
     Some (NewMap\<lparr>m_pixels := Some 1\<rparr>,
           \<lparr>heap = [Copy (NewNRGBA (Rect 0 0 512 512)) (Pt 128 128) red_tile
                      (Rect 0 0 256 256) Over,
                    Copy (NewNRGBA (Rect 0 0 512 512)) (Pt 128 128) red_tile
                      (Rect 0 0 256 256) Over],
            fetched = [(0, 0, 0), (0, 0, 0)], logged = []\<rparr>,
           Inr (Some 1))"
proof -
  have s: "draw_scale red_host = 1"
    by (simp add: draw_scale_def red_host_def go_trunc_def)
  have z: "m_zoom (NewMap\<lparr>m_pixels := a\<rparr>) = 0" "m_x (NewMap\<lparr>m_pixels := a\<rparr>) = 0"
    "m_y (NewMap\<lparr>m_pixels := a\<rparr>) = 0" for a
    by (simp_all add: NewMap_def)
  have L: "draw_locals red_host (NewMap\<lparr>m_pixels := a\<rparr>) 512 512 =
     \<lparr>l_scale = 1, l_tileSize = 256, l_w = 512, l_h = 512, l_midTileX = 128,
      l_midTileY = 128, l_zoom = 0, l_count = 1, l_mx = 0, l_my = 0,
      l_firstTileX = - 1, l_firstTileY = - 1\<rparr>" for a
    by (rule draw_locals_zoom0 [OF s z])
  have "draw red_host (NewMap\<lparr>m_pixels := None\<rparr>) env0 512 512 =
     Some (NewMap\<lparr>m_pixels := Some 0\<rparr>,
           \<lparr>heap = [Copy (NewNRGBA (Rect 0 0 512 512)) (Pt 128 128) red_tile
                      (Rect 0 0 256 256) Over],
            fetched = [(0, 0, 0)], logged = []\<rparr>,
           Inr (Some 0))"
    unfolding draw_zoom0 [OF s z] L
    by (simp add: ensure_pixels_def draw_tile_def tile_pos_def NewMap_def env0_def red_host_def)
  moreover have "draw red_host (NewMap\<lparr>m_pixels := Some 0\<rparr>)
        \<lparr>heap = [Copy (NewNRGBA (Rect 0 0 512 512)) (Pt 128 128) red_tile
                   (Rect 0 0 256 256) Over],
         fetched = [(0, 0, 0)], logged = []\<rparr> 512 512 =
     Some (NewMap\<lparr>m_pixels := Some 1\<rparr>,
           \<lparr>heap = [Copy (NewNRGBA (Rect 0 0 512 512)) (Pt 128 128) red_tile
                      (Rect 0 0 256 256) Over,
                    Copy (NewNRGBA (Rect 0 0 512 512)) (Pt 128 128) red_tile
                      (Rect 0 0 256 256) Over],
            fetched = [(0, 0, 0), (0, 0, 0)], logged = []\<rparr>,
           Inr (Some 1))"
    unfolding draw_zoom0 [OF s z] L
    by (simp add: ensure_pixels_def draw_tile_def tile_pos_def NewMap_def red_host_def)
  ultimately show ?thesis
    by (simp add: NewMap_def)
qed

subsection \<open>Failing fetches\<close>

lemma run_tiles_no_panic:
  assumes "\<And>j e. fst (f j e) = None"
  shows "fst (run_tiles f js e) = None"
proof (induction js arbitrary: e)
  case Nil
  show ?case by simp
next
  case (Cons j js)
  obtain e1 where "f j e = (None, e1)"
    using assms [of j e] by (cases "f j e") simp
  with Cons.IH [of e1] show ?case by simp
qed

lemma draw_tile_fetch_fails:
  assumes "\<And>i j z. \<exists>err. getTile c i j z = Inl err"
  shows "fst (draw_tile c m L i j e) = None" and "heap (snd (draw_tile c m L i j e)) = heap e"
proof -
  obtain err where "getTile c i j (l_zoom L) = Inl err"
    using assms by blast
  then show "fst (draw_tile c m L i j e) = None" and "heap (snd (draw_tile c m L i j e)) = heap e"
    by (simp_all add: draw_tile_def)
qed

lemma run_grid_fetch_fails:
  assumes fail: "\<And>i j z. \<exists>err. getTile c i j z = Inl err"
  shows "fst (run_grid c m L e) = None" and "heap (snd (run_grid c m L e)) = heap e"
proof -
  have col_panic: "fst (run_column c m L i e) = None" for i e
    unfolding run_column_def by (rule run_tiles_no_panic) (rule draw_tile_fetch_fails [OF fail])
  have tile_heap: "heap e' = heap e" if "draw_tile c m L i j e = (p, e')" for i j e p e'
    using draw_tile_fetch_fails(2) [OF fail, of m L i j e] that by simp
  have col_heap: "heap e' = heap e" if "run_column c m L i e = (p, e')" for i e p e'
    using that unfolding run_column_def
    by (rule run_tiles_rel [where R = "\<lambda>e e'. heap e' = heap e", rotated 3])
      (use tile_heap in auto)
  show "fst (run_grid c m L e) = None"
    unfolding run_grid_def by (rule run_tiles_no_panic) (rule col_panic)
  obtain p e' where g: "run_grid c m L e = (p, e')"
    by (cases "run_grid c m L e")
  then have "heap e' = heap e"
    unfolding run_grid_def
    by (rule run_tiles_rel [where R = "\<lambda>e e'. heap e' = heap e", rotated 3])
      (use col_heap in auto)
  with g show "heap (snd (run_grid c m L e)) = heap e"
    by simp
qed

text \<open>
  When every fetch fails, a call at a zoom level that is not negative returns the pointer
  \<^verbatim>\<open>m.pixels\<close> without a panic, and no buffer of the store is written: the store is
  the one that the test of line 110 left.
\<close>

lemma draw_fetch_fails:
  assumes fail: "\<And>i j z. \<exists>err. getTile c i j z = Inl err" and zoom: "0 \<le> sint (m_zoom m)"
  shows "\<exists>e'. draw c m e w h = Some (fst (ensure_pixels m e w h), e',
                 Inr (m_pixels (fst (ensure_pixels m e w h))))
              \<and> heap e' = heap (snd (ensure_pixels m e w h))"
proof -
  obtain m1 e1 where ens: "ensure_pixels m e w h = (m1, e1)"
    by (cases "ensure_pixels m e w h")
  from ensure_pixels_Map [OF ens] zoom have z: "\<not> sint (m_zoom m1) < 0"
    by auto
  obtain p e2 where g: "run_grid c m1 (draw_locals c m1 w h) e1 = (p, e2)"
    by (cases "run_grid c m1 (draw_locals c m1 w h) e1")
  with run_grid_fetch_fails [OF fail, of m1 "draw_locals c m1 w h" e1]
  have "p = None" and "heap e2 = heap e1"
    by simp_all
  with g show ?thesis
    by (simp add: draw_closed ens z)
qed

text \<open>
  C5 does not hold of the code. The claim: a call in which every fetch fails still returns a
  pixel buffer of the requested dimensions, without an error, each failed tile being
  skipped. The failures are contained as claimed (\<open>draw_fetch_fails\<close>), but the buffer
  is not always one of the requested dimensions. On a new widget the request \<open>(0, 0)\<close>
  equals the size fields, nothing is allocated and the call returns \<^verbatim>\<open>nil\<close>. After a
  call for 512 by 512 pixels the request \<open>(0, 0)\<close> returns the buffer of 512 by 512 pixels.
  This is the defect of C2 again: the size fields are compared but never assigned.
\<close>

theorem failing_fetches_wrong_buffer:
  "draw failing NewMap env0 0 0 =
     Some (NewMap, \<lparr>heap = [], fetched = [(0, 0, 0)], logged = [''unreachable'']\<rparr>, Inr None)
   \<and> draw failing NewMap env0 512 512 =
     Some (NewMap\<lparr>m_pixels := Some 0\<rparr>,
           \<lparr>heap = [NewNRGBA (Rect 0 0 512 512)], fetched = [(0, 0, 0)],
            logged = [''unreachable'']\<rparr>,
           Inr (Some 0))
   \<and> draw failing (NewMap\<lparr>m_pixels := Some 0\<rparr>)
        \<lparr>heap = [NewNRGBA (Rect 0 0 512 512)], fetched = [(0, 0, 0)],
         logged = [''unreachable'']\<rparr> 0 0 =
     Some (NewMap\<lparr>m_pixels := Some 0\<rparr>,
           \<lparr>heap = [NewNRGBA (Rect 0 0 512 512)], fetched = [(0, 0, 0), (0, 0, 0)],
            logged = [''unreachable'', ''unreachable'']\<rparr>,
           Inr (Some 0))
   \<and> nr_Rect (NewNRGBA (Rect 0 0 512 512)) = Rectangle (Pt 0 0) (Pt 512 512)
   \<and> rect_Dx (nr_Rect (NewNRGBA (Rect 0 0 512 512))) = 512
   \<and> rect_Dy (nr_Rect (NewNRGBA (Rect 0 0 512 512))) = 512"
proof -
  have L0: "draw_locals failing (NewMap\<lparr>m_pixels := a\<rparr>) 0 0 =
     \<lparr>l_scale = 1, l_tileSize = 256, l_w = 0, l_h = 0, l_midTileX = - 128,
      l_midTileY = - 128, l_zoom = 0, l_count = 1, l_mx = 0, l_my = 0,
      l_firstTileX = 0, l_firstTileY = 0\<rparr>" for a
    by (simp add: draw_locals_def failing_def NewMap_def tileSize_def draw_scale_def
        go_trunc_def signed_divide_int_def half_count_1 ceil_ratio_m128)
  have L512: "draw_locals failing (NewMap\<lparr>m_pixels := a\<rparr>) 512 512 =
     \<lparr>l_scale = 1, l_tileSize = 256, l_w = 512, l_h = 512, l_midTileX = 128,
      l_midTileY = 128, l_zoom = 0, l_count = 1, l_mx = 0, l_my = 0,
      l_firstTileX = - 1, l_firstTileY = - 1\<rparr>" for a
    by (simp add: draw_locals_def failing_def NewMap_def tileSize_def draw_scale_def
        go_trunc_def signed_divide_int_def half_count_1 ceil_ratio_128)
  have 1: "draw failing (NewMap\<lparr>m_pixels := None\<rparr>) env0 0 0 =
     Some (NewMap, \<lparr>heap = [], fetched = [(0, 0, 0)], logged = [''unreachable'']\<rparr>, Inr None)"
    unfolding draw_closed
    by (simp add: ensure_pixels_def L0)
      (simp add: NewMap_def env0_def failing_def run_grid_def run_column_def last_tile_def
        draw_tile_def upto_rec1)
  have 2: "draw failing (NewMap\<lparr>m_pixels := None\<rparr>) env0 512 512 =
     Some (NewMap\<lparr>m_pixels := Some 0\<rparr>,
           \<lparr>heap = [NewNRGBA (Rect 0 0 512 512)], fetched = [(0, 0, 0)],
            logged = [''unreachable'']\<rparr>,
           Inr (Some 0))"
    unfolding draw_closed
    by (simp add: ensure_pixels_def L512)
      (simp add: NewMap_def env0_def failing_def run_grid_def run_column_def last_tile_def
        draw_tile_def upto_rec1)
  have 3: "draw failing (NewMap\<lparr>m_pixels := Some 0\<rparr>)
        \<lparr>heap = [NewNRGBA (Rect 0 0 512 512)], fetched = [(0, 0, 0)],
         logged = [''unreachable'']\<rparr> 0 0 =
     Some (NewMap\<lparr>m_pixels := Some 0\<rparr>,
           \<lparr>heap = [NewNRGBA (Rect 0 0 512 512)], fetched = [(0, 0, 0), (0, 0, 0)],
            logged = [''unreachable'', ''unreachable'']\<rparr>,
           Inr (Some 0))"
    unfolding draw_closed
    by (simp add: ensure_pixels_def L0)
      (simp add: NewMap_def failing_def run_grid_def run_column_def last_tile_def
        draw_tile_def upto_rec1)
  have 4: "nr_Rect (NewNRGBA (Rect 0 0 512 512)) = Rectangle (Pt 0 0) (Pt 512 512)"
    by (simp add: NewNRGBA_def Rect_def)
  from 1 2 3 4 show ?thesis
    by (simp add: NewMap_def rect_Dx_def rect_Dy_def)
qed

subsection \<open>Compositing a tile\<close>

lemma unat_ucast_16_32: "unat (ucast (v :: 16 word) :: 32 word) = unat v"
proof -
  have "unat v < 2 ^ 16"
    using unsigned_less [of v] by simp
  then have "take_bit 32 (unat v) = unat v"
    by (intro take_bit_nat_eq_self) simp
  then show ?thesis
    by (simp add: unsigned_ucast_eq)
qed

lemma mult_div_0xffff:
  fixes x :: "32 word"
  assumes "unat x < 65536"
  shows "x * 0xffff div 0xffff = x"
proof -
  from assms have "unat x * unat (0xffff :: 32 word) \<le> 65535 * 65535"
    by (intro mult_mono) simp_all
  then have "unat x * unat (0xffff :: 32 word) < 2 ^ LENGTH(32)"
    by simp
  then have "unat (x * 0xffff) = unat x * unat (0xffff :: 32 word)"
    by (simp only: unat_mult_lem)
  then have "unat (x * 0xffff div 0xffff) = unat x"
    by (simp add: unat_div)
  then show ?thesis
    by (simp add: word_unat_eq_iff)
qed

lemma ucast_mult_div:
  "(ucast (v :: 16 word) :: 32 word) * 0xffff div 0xffff = ucast v"
proof (rule mult_div_0xffff)
  have "unat v < 2 ^ 16"
    using unsigned_less [of v] by simp
  then show "unat (ucast v :: 32 word) < 65536"
    by (simp add: unat_ucast_16_32)
qed

lemma uint16_ucast: "uint16 (ucast (v :: 16 word)) = ucast v"
  by (simp add: uint16_def ucast_up_ucast_id is_up)

text \<open>A fully opaque source pixel replaces the destination pixel.\<close>

lemma composite_opaque:
  assumes "qA s = 0xffff"
  shows "composite Over s d = nrgbaModel (RGBA64_RGBA s)"
proof -
  obtain dr dg db da where d: "NRGBA_RGBA d = (dr, dg, db, da)"
    by (cases "NRGBA_RGBA d")
  have a: "uint16 0xffff = 0xffff"
    by (simp add: uint16_def)
  show ?thesis
    using assms
    by (simp add: composite_def RGBA64_RGBA_def d ucast_mult_div uint16_ucast a)
qed


lemma pt_In_Intersect: "pt_In p (rect_Intersect r s) \<longleftrightarrow> pt_In p r \<and> pt_In p s"
  by (auto simp: rect_Intersect_def Let_def pt_In_def rect_Empty_def ZR_def)

lemma rect_Empty_no_point: "rect_Empty r \<Longrightarrow> \<not> pt_In p r"
  by (auto simp: rect_Empty_def pt_In_def)

lemma rMin_Copy_dr: "rMin (Copy_dr dp sr) = dp"
  by (simp add: Copy_dr_def rect_Add_def pt_Add_def pt_Sub_def)

text \<open>
  The pixels of a buffer after \<^verbatim>\<open>draw.Copy\<close>: inside the destination rectangle, the
  buffer and the translated bounds of the source, the composition of the source pixel with
  the pixel that was there; elsewhere the pixel that was there.
\<close>

lemma Copy_pixel:
  "NRGBA_At (Copy dst dp src sr op) u v =
     (if pt_In (Pt u v) (Copy_dr dp sr) \<and> pt_In (Pt u v) (nr_Rect dst)
         \<and> pt_In (Pt u v) (rect_Add (img_Bounds src) (pt_Sub dp (rMin sr)))
      then composite op (img_At src (pX (rMin sr) + (u - pX dp)) (pY (rMin sr) + (v - pY dp)))
             (NRGBA_At dst u v)
      else NRGBA_At dst u v)"
proof -
  let ?r2 = "rect_Intersect (rect_Intersect (Copy_dr dp sr) (nr_Rect dst))
               (rect_Add (img_Bounds src) (pt_Sub dp (rMin sr)))"
  show ?thesis
  proof (cases "rect_Empty ?r2")
    case True
    from rect_Empty_no_point [OF this, of "Pt u v"] True show ?thesis
      by (auto simp: Copy_def DrawMask_def Let_def rMin_Copy_dr pt_In_Intersect)
  next
    case False
    then show ?thesis
      by (auto simp: Copy_def DrawMask_def Let_def rMin_Copy_dr pt_In_Intersect NRGBA_At_def
          pt_Add_def pt_Sub_def)
  qed
qed








subsection \<open>An invariant of the widget\<close>

lemma zoom_succ_le:
  fixes z :: go_int
  assumes "0 \<le>s z" and "\<not> 19 \<le>s z"
  shows "0 \<le>s z + 1 \<and> z + 1 \<le>s 19"
proof -
  from assms have "0 \<le> sint z" and "sint z < 19"
    by (simp_all add: word_sle_eq)
  then have "sint (z + 1) = sint z + 1"
    by (simp add: sint_word_ariths signed_take_bit_int_eq_self)
  with \<open>0 \<le> sint z\<close> \<open>sint z < 19\<close> show ?thesis
    by (simp add: word_sle_eq)
qed

lemma zoom_pred_le:
  fixes z :: go_int
  assumes "z \<le>s 19" and "\<not> z \<le>s 0"
  shows "0 \<le>s z - 1 \<and> z - 1 \<le>s 19"
proof -
  from assms have "0 < sint z" and "sint z \<le> 19"
    by (simp_all add: word_sle_eq)
  then have "sint (z - 1) = sint z - 1"
    by (simp add: sint_word_ariths signed_take_bit_int_eq_self)
  with \<open>0 < sint z\<close> \<open>sint z \<le> 19\<close> show ?thesis
    by (simp add: word_sle_eq)
qed

text \<open>
  In every state the widget reaches the zoom level lies between 0 and 19, and the size fields
  are 0: they are compared by \<open>draw\<close> and assigned by nothing.
\<close>

lemma reachable_invariant:
  assumes "reachable m"
  shows "m_w m = 0 \<and> m_h m = 0 \<and> 0 \<le>s m_zoom m \<and> m_zoom m \<le>s 19"
  using assms
proof (induction rule: reachable.induct)
  case reach_new
  show ?case by (simp add: NewMap_def word_sle_eq)
next
  case (reach_zoomIn m)
  then show ?case
    using zoom_succ_le [of "m_zoom m"] by (simp add: zoomIn_def Refresh_def)
next
  case (reach_zoomOut m)
  then show ?case
    using zoom_pred_le [of "m_zoom m"] by (simp add: zoomOut_def Refresh_def)
next
  case (reach_moveUp m)
  then show ?case by (simp add: moveUp_def Refresh_def)
next
  case (reach_navigateBack m)
  then show ?case by (simp add: navigateBack_def Refresh_def)
next
  case (reach_navigateNext m)
  then show ?case by (simp add: navigateNext_def Refresh_def)
next
  case (reach_moveDown m)
  then show ?case by (simp add: moveDown_def Refresh_def)
next
  case (reach_draw m c e w h m' e' r)
  obtain m1 e1 where ens: "ensure_pixels m e w h = (m1, e1)"
    by (cases "ensure_pixels m e w h")
  from ensure_pixels_Map [OF ens] obtain a where m1: "m1 = m\<lparr>m_pixels := a\<rparr>" ..
  from reach_draw.hyps(2) ens have "m' = m1"
    by (auto simp: draw_closed split: if_splits prod.splits option.splits)
  with m1 reach_draw.IH show ?case by simp
qed

text \<open>
  Hence a reached widget allocates a buffer in every call of \<open>draw\<close> whose request is not
  \<open>(0, 0)\<close>, whatever the previous request was, and never for the request \<open>(0, 0)\<close>.
\<close>

lemma reachable_draw_allocates:
  assumes "reachable m" and "draw c m e w h = Some (m', e', r)"
  shows "w \<noteq> 0 \<or> h \<noteq> 0 \<Longrightarrow>
           m_pixels m' = Some (length (heap e)) \<and> length (heap e') = Suc (length (heap e))"
    and "w = 0 \<and> h = 0 \<Longrightarrow> m_pixels m' = m_pixels m \<and> length (heap e') = length (heap e)"
  using reachable_invariant [OF assms(1)] draw_buffer(2,3) [OF assms(2)] by auto

text \<open>
  When every fetch fails and the size fields differ from a request that is not negative,
  the returned buffer is a new one of the requested size, still blank.
\<close>

lemma draw_fetch_fails_fresh:
  assumes fail: "\<And>i j z. \<exists>err. getTile c i j z = Inl err" and zoom: "0 \<le> sint (m_zoom m)"
    and differ: "m_w m \<noteq> w \<or> m_h m \<noteq> h" and size: "0 \<le> sint w" "0 \<le> sint h"
  shows "\<exists>m' e'. draw c m e w h = Some (m', e', Inr (Some (length (heap e))))
            \<and> heap e' = heap e @ [NewNRGBA (Rectangle (Pt 0 0) (Pt (sint w) (sint h)))]"
proof -
  from differ size have "ensure_pixels m e w h =
      (m\<lparr>m_pixels := Some (length (heap e))\<rparr>,
       e\<lparr>heap := heap e @ [NewNRGBA (Rectangle (Pt 0 0) (Pt (sint w) (sint h)))]\<rparr>)"
    by (auto simp: ensure_pixels_def Rect_def)
  with draw_fetch_fails [OF fail zoom, of e w h] show ?thesis
    by auto
qed

subsection \<open>The picture of the scenario\<close>

text \<open>
  The buffer that the call of C8 returns when the tile is opaque red: red on the square
  from \<open>(128, 128)\<close> to \<open>(384, 384)\<close>, blank around it.
\<close>

lemma centred_tile_pixels:
  "NRGBA_At (Copy (NewNRGBA (Rect 0 0 512 512)) (Pt 128 128) red_tile (Rect 0 0 256 256) Over) u v
     = (if 128 \<le> u \<and> u < 384 \<and> 128 \<le> v \<and> v < 384
        then color_NRGBA 0xff 0 0 0xff else color_NRGBA 0 0 0 0)"
  by (subst Copy_pixel)
    (auto simp: composite_opaque red_tile_def Copy_dr_def Rect_def rect_Add_def
      pt_Add_def pt_Sub_def pt_In_def NewNRGBA_def NRGBA_At_def RGBA64_RGBA_def nrgbaModel_def)



text \<open>
  The centre offset \<^verbatim>\<open>int(float32(count)/2 - 0.5)\<close> at zoom level 2 (four tiles per
  axis): with the stored centre \<open>(0, 0)\<close> the tiles are enumerated around \<open>(1, 1)\<close>.
\<close>

lemma half_count_4: "half_count 4 = 1"
  by code_simp

end
